theory Spec2Isabelle
  imports Complex_Main
begin

section \<open>Position-specific scoring matrices (scoring.py)\<close>

text \<open>
  A shallow embedding of \<^verbatim>\<open>scoring.py\<close>. A Python dict is an association list in
  insertion order (a dict never holds a key twice), a Python list is a HOL list, and the
  bases are the one-character strings of \<^verbatim>\<open>BASES\<close>. Counts are Python integers
  (\<^typ>\<open>int\<close>); frequencies and scores are read in exact arithmetic (\<^typ>\<open>real\<close>), and
  the percentage report is given a second time in the rounded arithmetic of Python's floats.
  Every exception the code can raise is a value of \<open>error\<close>, returned with \<open>Inl\<close>.
\<close>

subsection \<open>Exceptions, dicts and lists\<close>

datatype error = KeyError | IndexError | ZeroDivisionError | AssertionError | ValueError

type_synonym ('k, 'v) dict = "('k \<times> 'v) list"

type_synonym 'a matrix = "(string, 'a list) dict"

text \<open>\<^verbatim>\<open>d[k]\<close>: a missing key raises KeyError.\<close>

definition getitem :: "('k, 'v) dict \<Rightarrow> 'k \<Rightarrow> error + 'v" where
  "getitem d k = (case map_of d k of None \<Rightarrow> Inl KeyError | Some v \<Rightarrow> Inr v)"

text \<open>\<^verbatim>\<open>d[k] = v\<close>: an existing key keeps its place, a new key is appended.\<close>

fun setitem :: "('k, 'v) dict \<Rightarrow> 'k \<Rightarrow> 'v \<Rightarrow> ('k, 'v) dict" where
  "setitem [] k v = [(k, v)]"
| "setitem ((k', v') # d) k v =
     (if k' = k then (k, v) # d else (k', v') # setitem d k v)"

text \<open>\<^verbatim>\<open>xs[i]\<close> for \<open>i \<ge> 0\<close>: an index past the end raises IndexError.\<close>

definition index :: "'a list \<Rightarrow> nat \<Rightarrow> error + 'a" where
  "index xs i = (if i < length xs then Inr (xs ! i) else Inl IndexError)"

text \<open>\<^verbatim>\<open>m[base][i]\<close>: the key is looked up first, then the position.\<close>

definition cell :: "'a matrix \<Rightarrow> string \<Rightarrow> nat \<Rightarrow> error + 'a" where
  "cell m base i = (case getitem m base of Inl e \<Rightarrow> Inl e | Inr row \<Rightarrow> index row i)"

text \<open>A \<^verbatim>\<open>for\<close> loop over a list that threads a state and stops at the first exception.\<close>

fun for_loop :: "('s \<Rightarrow> 'a \<Rightarrow> error + 's) \<Rightarrow> 'a list \<Rightarrow> 's \<Rightarrow> error + 's" where
  "for_loop body [] s = Inr s"
| "for_loop body (x # xs) s =
     (case body s x of Inl e \<Rightarrow> Inl e | Inr s' \<Rightarrow> for_loop body xs s')"

text \<open>A list comprehension whose element expression may raise.\<close>

fun comprehension :: "('a \<Rightarrow> error + 'b) \<Rightarrow> 'a list \<Rightarrow> error + 'b list" where
  "comprehension f [] = Inr []"
| "comprehension f (x # xs) =
     (case f x of Inl e \<Rightarrow> Inl e
      | Inr y \<Rightarrow> (case comprehension f xs of Inl e \<Rightarrow> Inl e | Inr ys \<Rightarrow> Inr (y # ys)))"

definition BASES :: "string list" where
  "BASES = [''A'', ''T'', ''C'', ''G'']"

text \<open>The values of the four bases at one position, in the order of \<^verbatim>\<open>BASES\<close>:
  \<^verbatim>\<open>m[base][i] for base in BASES\<close>.\<close>

definition column :: "'a matrix \<Rightarrow> nat \<Rightarrow> error + 'a list" where
  "column m i = comprehension (\<lambda>base. cell m base i) BASES"

subsection \<open>Count matrix\<close>

text \<open>\<^verbatim>\<open>count_matrix[base][i] += 1\<close>\<close>

definition incr_cell :: "int matrix \<Rightarrow> string \<Rightarrow> nat \<Rightarrow> error + int matrix" where
  "incr_cell count_matrix base i =
     (case getitem count_matrix base of Inl e \<Rightarrow> Inl e
      | Inr row \<Rightarrow>
          if i < length row then Inr (setitem count_matrix base (row[i := row ! i + 1]))
          else Inl IndexError)"

text \<open>
  The assertion holds vacuously for an empty list, and \<^verbatim>\<open>instances[0]\<close> then raises
  IndexError. \<^verbatim>\<open>instance[i]\<close> is the one-character string \<open>[instance ! i]\<close>, with
  \<open>i\<close> in range by the loop's bounds.
\<close>

definition instances_to_count_matrix :: "string list \<Rightarrow> error + int matrix" where
  "instances_to_count_matrix instances =
     (case instances of
        [] \<Rightarrow> Inl IndexError
      | first # _ \<Rightarrow>
          if list_ex (\<lambda>i. length first \<noteq> length i) instances then Inl AssertionError
          else
            let motif_length = length first;
                count_matrix = map (\<lambda>base. (base, replicate motif_length 0)) BASES
            in for_loop
                 (\<lambda>cm instance.
                    for_loop (\<lambda>cm' i. incr_cell cm' [instance ! i] i) [0..<length instance] cm)
                 instances count_matrix)"

subsection \<open>Frequency matrix\<close>

text \<open>\<^verbatim>\<open>occurance / instance_count\<close>: true division of Python integers.\<close>

definition true_div :: "int \<Rightarrow> int \<Rightarrow> error + real" where
  "true_div a b = (if b = 0 then Inl ZeroDivisionError else Inr (real_of_int a / real_of_int b))"

definition count_to_frequency_matrix :: "int matrix \<Rightarrow> error + real matrix" where
  "count_to_frequency_matrix count_matrix =
     (case column count_matrix 0 of
        Inl e \<Rightarrow> Inl e
      | Inr firsts \<Rightarrow>
          let instance_count = sum_list firsts
          in for_loop
               (\<lambda>frequency_matrix (base, occurances).
                  case comprehension (\<lambda>occurance. true_div occurance instance_count) occurances of
                    Inl e \<Rightarrow> Inl e
                  | Inr row \<Rightarrow> Inr (setitem frequency_matrix base row))
               count_matrix [])"

subsection \<open>Scorers\<close>

text \<open>The three loops, with the sums and the product in exact arithmetic. The lookups and
  their exceptions do not depend on the arithmetic; the product scorer with rounded
  multiplications is \<open>score_pssm_double\<close> below.\<close>

definition score_sum :: "string \<Rightarrow> real matrix \<Rightarrow> error + real" where
  "score_sum string scoring_matrix =
     for_loop
       (\<lambda>score i. case cell scoring_matrix [string ! i] i of
                     Inl e \<Rightarrow> Inl e | Inr v \<Rightarrow> Inr (score + v))
       [0..<length string] 1"

definition score_pssm :: "string \<Rightarrow> real matrix \<Rightarrow> error + real" where
  "score_pssm string scoring_matrix =
     for_loop
       (\<lambda>score i. case cell scoring_matrix [string ! i] i of
                     Inl e \<Rightarrow> Inl e | Inr v \<Rightarrow> Inr (score * v))
       [0..<length string] 1"

definition score_pssm_log :: "string \<Rightarrow> real matrix \<Rightarrow> error + real" where
  "score_pssm_log string log_matrix =
     for_loop
       (\<lambda>score i. case cell log_matrix [string ! i] i of
                     Inl e \<Rightarrow> Inl e | Inr v \<Rightarrow> Inr (score + v))
       [0..<length string] 0"

subsection \<open>Pseudo-counts\<close>

text \<open>\<^verbatim>\<open>[frequency_matrix[base][i] for base in BASES]\<close>\<close>

definition position_frequencies :: "real matrix \<Rightarrow> nat \<Rightarrow> error + real list" where
  "position_frequencies frequency_matrix i = column frequency_matrix i"

text \<open>\<^verbatim>\<open>sum(map(lambda i: i == 0, position_frequencies))\<close>\<close>

definition zero_count :: "real list \<Rightarrow> int" where
  "zero_count fs = int (length (filter (\<lambda>x. x = 0) fs))"

definition nonzero_count :: "real list \<Rightarrow> int" where
  "nonzero_count fs = int (length BASES) - zero_count fs"

text \<open>\<^verbatim>\<open>(zero_count * low_frequency) / nonzero_count\<close>, once the divisor is known not to be 0.\<close>

definition diff :: "real list \<Rightarrow> real \<Rightarrow> real" where
  "diff fs low_frequency =
     (real_of_int (zero_count fs) * low_frequency) / real_of_int (nonzero_count fs)"

text \<open>\<^verbatim>\<open>pseudo_matrix[base][i] = v\<close>\<close>

definition set_cell :: "real matrix \<Rightarrow> string \<Rightarrow> nat \<Rightarrow> real \<Rightarrow> error + real matrix" where
  "set_cell pseudo_matrix base i v =
     (case getitem pseudo_matrix base of Inl e \<Rightarrow> Inl e
      | Inr row \<Rightarrow>
          if i < length row then Inr (setitem pseudo_matrix base (row[i := v]))
          else Inl IndexError)"

text \<open>The body of the loop over the positions.\<close>

definition pseudo_position :: "real matrix \<Rightarrow> real \<Rightarrow> real matrix \<Rightarrow> nat \<Rightarrow> error + real matrix" where
  "pseudo_position frequency_matrix low_frequency pseudo_matrix i =
     (case position_frequencies frequency_matrix i of
        Inl e \<Rightarrow> Inl e
      | Inr fs \<Rightarrow>
          if nonzero_count fs = 0 then Inl ZeroDivisionError
          else
            for_loop
              (\<lambda>pm base.
                 case cell frequency_matrix base i of
                   Inl e \<Rightarrow> Inl e
                 | Inr base_frequency \<Rightarrow>
                     set_cell pm base i
                       (if base_frequency = 0 then low_frequency
                        else base_frequency - diff fs low_frequency))
              BASES pseudo_matrix)"

definition add_pseudo_counts :: "real matrix \<Rightarrow> real \<Rightarrow> error + real matrix" where
  "add_pseudo_counts frequency_matrix low_frequency =
     (case getitem frequency_matrix (BASES ! 0) of
        Inl e \<Rightarrow> Inl e
      | Inr row \<Rightarrow>
          let motif_length = length row;
              pseudo_matrix = map (\<lambda>base. (base, replicate motif_length 0)) BASES
          in for_loop (pseudo_position frequency_matrix low_frequency)
               [0..<motif_length] pseudo_matrix)"

subsection \<open>Log matrix\<close>

text \<open>\<^verbatim>\<open>-log(i)\<close>: \<^verbatim>\<open>math.log\<close> raises ValueError outside its domain.\<close>

definition neg_log :: "real \<Rightarrow> error + real" where
  "neg_log x = (if x \<le> 0 then Inl ValueError else Inr (- ln x))"

definition freq_to_log_matrix :: "real matrix \<Rightarrow> error + real matrix" where
  "freq_to_log_matrix frequency_matrix =
     for_loop
       (\<lambda>log_matrix (base, occurances).
          case comprehension neg_log occurances of
            Inl e \<Rightarrow> Inl e
          | Inr row \<Rightarrow> Inr (setitem log_matrix base row))
       frequency_matrix []"

subsection \<open>Reports\<close>

definition get_frequency_matrix :: "string list \<Rightarrow> error + real matrix" where
  "get_frequency_matrix instances =
     (case instances_to_count_matrix instances of
        Inl e \<Rightarrow> Inl e
      | Inr count_matrix \<Rightarrow> count_to_frequency_matrix count_matrix)"

text \<open>\<^verbatim>\<open>add_pseudo_counts\<close> is called with its default \<^verbatim>\<open>low_frequency=0.1\<close>.\<close>

definition get_scoring_matrix :: "string list \<Rightarrow> error + real matrix" where
  "get_scoring_matrix instances =
     (case get_frequency_matrix instances of
        Inl e \<Rightarrow> Inl e
      | Inr frequency_matrix \<Rightarrow>
          (case add_pseudo_counts frequency_matrix (1/10) of
             Inl e \<Rightarrow> Inl e
           | Inr pseudo_matrix \<Rightarrow> freq_to_log_matrix pseudo_matrix))"


subsection \<open>The percentage report in binary64 arithmetic\<close>

text \<open>
  Python's floats are IEEE-754 binary64 numbers, and each operation returns the exact
  result rounded to the nearest one, ties to even. A finite double is a real number here;
  \<open>round_double\<close> is that rounding with gradual underflow (unit in the last place
  \<open>2 powr (e - 52)\<close> with the exponent \<open>e\<close> of the value, not below \<open>- 1022\<close>). Infinities
  and NaN are not represented: the quotients and products of the percentage report lie
  between 0 and 1.
\<close>

definition round_half_even :: "real \<Rightarrow> int" where
  "round_half_even q =
     (let n = \<lfloor>q\<rfloor>; r = q - of_int n
      in if r < 1/2 then n else if 1/2 < r then n + 1 else if even n then n else n + 1)"

definition double_exponent :: "real \<Rightarrow> int" where
  "double_exponent x = max \<lfloor>log 2 \<bar>x\<bar>\<rfloor> (- 1022)"

definition round_double :: "real \<Rightarrow> real" where
  "round_double x =
     (if x = 0 then 0
      else let ulp = 2 powr of_int (double_exponent x - 52)
           in of_int (round_half_even (x / ulp)) * ulp)"






subsection \<open>Concrete matrices and proof-only abbreviations\<close>

text \<open>The frequency matrix of the doctests of \<^verbatim>\<open>score_pssm\<close> and \<^verbatim>\<open>add_pseudo_counts\<close>.\<close>

definition doctest_matrix :: "real matrix" where
  "doctest_matrix = [(''A'', [1, 0]), (''T'', [0, 1/2]), (''C'', [0, 1/2]), (''G'', [0, 0])]"

text \<open>The common body of the three scorer loops, with the accumulation as a parameter.\<close>

definition accumulate ::
  "(real \<Rightarrow> real \<Rightarrow> real) \<Rightarrow> string \<Rightarrow> real matrix \<Rightarrow> real \<Rightarrow> nat \<Rightarrow> error + real" where
  "accumulate f string m score i =
     (case cell m [string ! i] i of Inl e \<Rightarrow> Inl e | Inr v \<Rightarrow> Inr (f score v))"

text \<open>The result of the doctest of \<^verbatim>\<open>add_pseudo_counts\<close>: every cell is positive.\<close>

definition pseudo_doctest_matrix :: "real matrix" where
  "pseudo_doctest_matrix =
     [(''A'', [7/10, 1/10]), (''T'', [1/10, 2/5]), (''C'', [1/10, 2/5]), (''G'', [1/10, 1/10])]"

text \<open>A count matrix of no instances.\<close>

definition empty_count_matrix :: "int matrix" where
  "empty_count_matrix = [(''A'', [0, 0]), (''T'', [0, 0]), (''C'', [0, 0]), (''G'', [0, 0])]"

text \<open>Ten instances of length 1, nine \<^verbatim>\<open>"A"\<close> and one \<^verbatim>\<open>"T"\<close>, and their frequency
  matrix.\<close>

definition nine_A_one_T :: "string list" where
  "nine_A_one_T = [''A'', ''A'', ''A'', ''A'', ''A'', ''A'', ''A'', ''A'', ''A'', ''T'']"

definition nine_to_one_matrix :: "real matrix" where
  "nine_to_one_matrix = [(''A'', [9/10]), (''T'', [1/10]), (''C'', [0]), (''G'', [0])]"

text \<open>A matrix with the four bases as keys, in the order of \<^verbatim>\<open>BASES\<close>, and \<open>n\<close>
  positions, given by its cells. The matrices that the code builds have this shape.\<close>

definition table :: "(string \<Rightarrow> nat \<Rightarrow> 'a) \<Rightarrow> nat \<Rightarrow> 'a matrix" where
  "table f n = map (\<lambda>base. (base, map (f base) [0..<n])) BASES"

text \<open>The value that \<^verbatim>\<open>add_pseudo_counts\<close> stores for one cell, where the lookups
  succeed.\<close>

definition new_cell :: "real matrix \<Rightarrow> real \<Rightarrow> string \<Rightarrow> nat \<Rightarrow> real" where
  "new_cell m low_frequency base i =
     (case (cell m base i, column m i) of
        (Inr v, Inr fs) \<Rightarrow> if v = 0 then low_frequency else v - diff fs low_frequency
      | _ \<Rightarrow> 0)"

text \<open>The number of instances that have \<open>base\<close> at position \<open>i\<close>.\<close>

definition occurrences :: "string list \<Rightarrow> string \<Rightarrow> nat \<Rightarrow> int" where
  "occurrences instances base i =
     int (length (filter (\<lambda>instance. [instance ! i] = base) instances))"


section \<open>Loops and lookups\<close>

lemma for_loop_errors:
  assumes "for_loop body xs s = Inl e"
    and "\<And>s' x e'. x \<in> set xs \<Longrightarrow> body s' x = Inl e' \<Longrightarrow> e' \<in> E"
  shows "e \<in> E"
  using assms
proof (induction xs arbitrary: s)
  case Nil
  then show ?case by simp
next
  case (Cons x xs)
  show ?case
  proof (cases "body s x")
    case (Inl e')
    with Cons.prems show ?thesis by auto
  next
    case (Inr s')
    with Cons.prems have "for_loop body xs s' = Inl e" by simp
    then show ?thesis using Cons.IH Cons.prems(2) by auto
  qed
qed

lemma for_loop_fails:
  assumes "x \<in> set xs" and "\<And>s'. \<exists>e'. body s' x = Inl e'"
  shows "\<exists>e. for_loop body xs s = Inl e"
  using assms(1)
proof (induction xs arbitrary: s)
  case Nil
  then show ?case by simp
next
  case (Cons y ys)
  show ?case
  proof (cases "body s y")
    case (Inl e')
    then show ?thesis by simp
  next
    case (Inr s')
    show ?thesis
    proof (cases "x = y")
      case True
      with assms(2)[of s] Inr show ?thesis by auto
    next
      case False
      with Cons.prems have "x \<in> set ys" by simp
      from Cons.IH[OF this, of s'] Inr show ?thesis by simp
    qed
  qed
qed

lemma cell_errors: "cell m b i = Inl e \<Longrightarrow> e \<in> {KeyError, IndexError}"
  by (auto simp: cell_def getitem_def index_def split: option.splits if_splits)

lemma cell_unknown_key: "k \<notin> fst ` set m \<Longrightarrow> cell m k i = Inl KeyError"
proof -
  assume "k \<notin> fst ` set m"
  then have "map_of m k = None" by (simp add: map_of_eq_None_iff)
  then show ?thesis by (simp add: cell_def getitem_def)
qed

lemma cell_past_end:
  assumes "\<forall>(b, row) \<in> set m. length row \<le> i"
  shows "\<exists>e. cell m k i = Inl e"
proof (cases "map_of m k")
  case None
  then show ?thesis by (simp add: cell_def getitem_def)
next
  case (Some row)
  then have "(k, row) \<in> set m" by (rule map_of_SomeD)
  with assms have "length row \<le> i" by auto
  with Some show ?thesis by (simp add: cell_def getitem_def index_def)
qed

section \<open>Scorers\<close>

lemma score_sum_acc:
  "score_sum string m = for_loop (accumulate (+) string m) [0..<length string] 1"
  by (simp add: score_sum_def accumulate_def[abs_def])

lemma score_pssm_acc:
  "score_pssm string m = for_loop (accumulate (*) string m) [0..<length string] 1"
  by (simp add: score_pssm_def accumulate_def[abs_def])

lemma score_pssm_log_acc:
  "score_pssm_log string m = for_loop (accumulate (+) string m) [0..<length string] 0"
  by (simp add: score_pssm_log_def accumulate_def[abs_def])

text \<open>One failing lookup anywhere in the string makes the whole loop fail, whatever was
  accumulated before it; and a lookup can only fail with KeyError or IndexError (the two
  subclasses of Python's LookupError).\<close>

lemma scorer_lookup_error:
  assumes "i < length string" and "\<exists>e. cell m [string ! i] i = Inl e"
  shows "for_loop (accumulate f string m) [0..<length string] s0 \<in> {Inl KeyError, Inl IndexError}"
proof -
  have "\<exists>e. for_loop (accumulate f string m) [0..<length string] s0 = Inl e"
  proof (rule for_loop_fails[of i])
    show "i \<in> set [0..<length string]" using assms(1) by simp
    show "\<exists>e'. accumulate f string m s' i = Inl e'" for s'
      using assms(2) by (auto simp: accumulate_def)
  qed
  then obtain e where e: "for_loop (accumulate f string m) [0..<length string] s0 = Inl e" ..
  have "e \<in> {KeyError, IndexError}"
  proof (rule for_loop_errors[OF e])
    fix s' x e'
    assume "accumulate f string m s' x = Inl e'"
    then show "e' \<in> {KeyError, IndexError}"
      using cell_errors[of m "[string ! x]" x] by (auto simp: accumulate_def split: sum.splits)
  qed
  with e show ?thesis by auto
qed

text \<open>
  Claim C2. The claim says that the Sum Scorer gives 1.5 for \<^verbatim>\<open>"AT"\<close> against the doctest
  matrix, as the docstring of \<^verbatim>\<open>score_sum\<close> does. The code starts its accumulator at 1 and
  adds 1.0 and 0.5: it returns 2.5.
\<close>

theorem score_sum_doctest_value: "score_sum ''AT'' doctest_matrix = Inr (5 / 2)"
  by (simp add: score_sum_def doctest_matrix_def cell_def getitem_def index_def)

text \<open>
  Claim C4, as stated, fails: a string shorter than the motif length is scored over its own
  length by each of the three scorers. Here the matrix has motif length 2 and the string
  length 1.
\<close>

theorem scorers_shorter_string_counterexample:
  "score_sum ''A'' doctest_matrix = Inr 2
   \<and> score_pssm ''A'' doctest_matrix = Inr 1
   \<and> score_pssm_log ''A'' doctest_matrix = Inr 1"
  by (simp add: score_sum_def score_pssm_def score_pssm_log_def doctest_matrix_def
      cell_def getitem_def index_def)

text \<open>
  Claim C4, amended: for every scoring matrix whose rows all have length \<open>L\<close> and every
  string longer than \<open>L\<close>, each of the three scorers fails with a lookup error
  (IndexError at position \<open>L\<close>, or KeyError at an unknown character before it).
\<close>

theorem scorers_longer_string:
  assumes "\<forall>(b, row) \<in> set m. length row = L" and "L < length string"
  shows "score_sum string m \<in> {Inl KeyError, Inl IndexError}
       \<and> score_pssm string m \<in> {Inl KeyError, Inl IndexError}
       \<and> score_pssm_log string m \<in> {Inl KeyError, Inl IndexError}"
proof -
  from assms(1) have "\<forall>(b, row) \<in> set m. length row \<le> L" by auto
  then have "\<exists>e. cell m [string ! L] L = Inl e" by (rule cell_past_end)
  with assms(2) show ?thesis
    unfolding score_sum_acc score_pssm_acc score_pssm_log_acc
    by (simp only: scorer_lookup_error)
qed

theorem scorers_longer_string_witness:
  "score_sum ''ATA'' doctest_matrix \<in> {Inl KeyError, Inl IndexError}
   \<and> score_pssm ''ATA'' doctest_matrix \<in> {Inl KeyError, Inl IndexError}
   \<and> score_pssm_log ''ATA'' doctest_matrix \<in> {Inl KeyError, Inl IndexError}"
  using scorers_longer_string[of doctest_matrix 2 "''ATA''"]
  by (simp add: doctest_matrix_def)

text \<open>
  Claim C9: for every scoring matrix keyed only by the four bases and every string with a
  character outside them, each of the three scorers fails with a lookup error and returns
  no score.
\<close>

theorem scorers_unknown_symbol:
  assumes "fst ` set m \<subseteq> set BASES" and "\<exists>c \<in> set string. [c] \<notin> set BASES"
  shows "score_sum string m \<in> {Inl KeyError, Inl IndexError}
       \<and> score_pssm string m \<in> {Inl KeyError, Inl IndexError}
       \<and> score_pssm_log string m \<in> {Inl KeyError, Inl IndexError}"
proof -
  from assms(2) obtain i where i: "i < length string" and "[string ! i] \<notin> set BASES"
    by (auto simp: in_set_conv_nth)
  with assms(1) have "[string ! i] \<notin> fst ` set m" by auto
  then have "\<exists>e. cell m [string ! i] i = Inl e" by (simp add: cell_unknown_key)
  with i show ?thesis
    unfolding score_sum_acc score_pssm_acc score_pssm_log_acc
    by (simp only: scorer_lookup_error)
qed

theorem scorers_unknown_symbol_witness:
  "score_sum ''AN'' doctest_matrix \<in> {Inl KeyError, Inl IndexError}
   \<and> score_pssm ''AN'' doctest_matrix \<in> {Inl KeyError, Inl IndexError}
   \<and> score_pssm_log ''AN'' doctest_matrix \<in> {Inl KeyError, Inl IndexError}"
  using scorers_unknown_symbol[of doctest_matrix "''AN''"]
  by (simp add: doctest_matrix_def BASES_def)

section \<open>Comprehensions and loops over the items of a dict\<close>

lemma comprehension_map:
  "(\<And>x. x \<in> set xs \<Longrightarrow> f x = Inr (g x)) \<Longrightarrow> comprehension f xs = Inr (map g xs)"
  by (induction xs) auto

lemma comprehension_errors:
  "comprehension f xs = Inl e \<Longrightarrow> (\<And>x e'. x \<in> set xs \<Longrightarrow> f x = Inl e' \<Longrightarrow> e' \<in> E) \<Longrightarrow> e \<in> E"
proof (induction xs arbitrary: e)
  case Nil
  then show ?case by simp
next
  case (Cons x xs)
  then show ?case by (auto split: sum.splits)
qed

lemma comprehension_fails:
  "x \<in> set xs \<Longrightarrow> f x = Inl e' \<Longrightarrow> \<exists>e. comprehension f xs = Inl e"
  by (induction xs) (auto split: sum.splits)

lemma setitem_new_key: "k \<notin> fst ` set d \<Longrightarrow> setitem d k v = d @ [(k, v)]"
  by (induction d) auto

text \<open>Over a dict (distinct keys), a loop that stores one computed row per item builds the
  result item by item, in the same order.\<close>

lemma items_loop:
  assumes "distinct (map fst m)"
    and "fst ` set acc \<inter> fst ` set m = {}"
    and "\<And>k row. (k, row) \<in> set m \<Longrightarrow> f row = Inr (g row)"
  shows "for_loop (\<lambda>d (k, row). case f row of Inl e \<Rightarrow> Inl e | Inr r \<Rightarrow> Inr (setitem d k r)) m acc
         = Inr (acc @ map (\<lambda>(k, row). (k, g row)) m)"
  using assms
proof (induction m arbitrary: acc)
  case Nil
  then show ?case by simp
next
  case (Cons kv m)
  obtain k row where kv: "kv = (k, row)" by (cases kv)
  from Cons.prems(2) kv have knew: "k \<notin> fst ` set acc" by auto
  have f: "f row = Inr (g row)" using Cons.prems(3)[of k row] kv by simp
  have d: "distinct (map fst m)" using Cons.prems(1) by simp
  have disj: "fst ` set (acc @ [(k, g row)]) \<inter> fst ` set m = {}"
    using Cons.prems(1,2) kv by (auto simp: image_iff)
  have "for_loop (\<lambda>d (k, row). case f row of Inl e \<Rightarrow> Inl e | Inr r \<Rightarrow> Inr (setitem d k r)) m (acc @ [(k, g row)])
         = Inr ((acc @ [(k, g row)]) @ map (\<lambda>(k, row). (k, g row)) m)"
    by (rule Cons.IH[OF d disj]) (use Cons.prems(3) in auto)
  then show ?case using kv f knew by (simp add: setitem_new_key)
qed

section \<open>Log matrix\<close>

lemma neg_log_pos: "0 < x \<Longrightarrow> neg_log x = Inr (- ln x)"
  by (simp add: neg_log_def)

text \<open>
  Claim C8: for every matrix (a dict, so its keys are distinct) all of whose cells are
  strictly positive, \<^verbatim>\<open>freq_to_log_matrix\<close> returns a matrix, and mapping each of its
  cells \<open>x\<close> to \<open>exp (- x)\<close> gives the original matrix back, in exact real arithmetic.
\<close>

theorem log_matrix_round_trip:
  assumes "distinct (map fst m)" and "\<forall>(base, row) \<in> set m. \<forall>x \<in> set row. 0 < x"
  shows "\<exists>log_matrix. freq_to_log_matrix m = Inr log_matrix
           \<and> map (\<lambda>(base, row). (base, map (\<lambda>x. exp (- x)) row)) log_matrix = m"
proof -
  have rows: "comprehension neg_log row = Inr (map (\<lambda>x. - ln x) row)" if "(k, row) \<in> set m" for k row
  proof (rule comprehension_map)
    fix x assume "x \<in> set row"
    with that assms(2) have "0 < x" by auto
    then show "neg_log x = Inr (- ln x)" by (rule neg_log_pos)
  qed
  have run: "freq_to_log_matrix m = Inr ([] @ map (\<lambda>(k, row). (k, map (\<lambda>x. - ln x) row)) m)"
    unfolding freq_to_log_matrix_def
    by (rule items_loop[OF assms(1)]) (use rows in auto)
  have restored: "map (\<lambda>(base, row). (base, map (\<lambda>x. exp (- x)) row))
               (map (\<lambda>(k, row). (k, map (\<lambda>x. - ln x) row)) m) = m"
  proof -
    have "(\<lambda>(base, row). (base, map (\<lambda>x. exp (- x)) row)) ((\<lambda>(k, row). (k, map (\<lambda>x. - ln x) row)) kv) = kv"
      if "kv \<in> set m" for kv
    proof -
      obtain k row where kv: "kv = (k, row)" by (cases kv)
      with that assms(2) have "\<forall>x \<in> set row. 0 < x" by auto
      then have "map (\<lambda>x. exp (- (- ln x))) row = row"
        by (induction row) auto
      with kv show ?thesis by (simp add: comp_def)
    qed
    then show ?thesis by (simp add: map_idI)
  qed
  from run restored show ?thesis by simp
qed

theorem log_matrix_round_trip_witness:
  "\<exists>log_matrix. freq_to_log_matrix pseudo_doctest_matrix = Inr log_matrix
     \<and> map (\<lambda>(base, row). (base, map (\<lambda>x. exp (- x)) row)) log_matrix = pseudo_doctest_matrix"
  using log_matrix_round_trip[of pseudo_doctest_matrix] by (simp add: pseudo_doctest_matrix_def)

section \<open>Frequency matrix\<close>

lemma column_first_row:
  assumes "column m i = Inr vs"
  shows "\<exists>row. (''A'', row) \<in> set m \<and> i < length row"
proof -
  from assms have "\<exists>v. cell m ''A'' i = Inr v"
    by (auto simp: column_def BASES_def split: sum.splits)
  then show ?thesis
    by (auto simp: cell_def getitem_def index_def split: option.splits if_splits dest: map_of_SomeD)
qed

text \<open>The divisor is the total of position 0: when it is 0, the first division fails.\<close>

lemma count_to_frequency_zero_first:
  assumes "column count_matrix 0 = Inr firsts" and "sum_list firsts = 0"
  shows "count_to_frequency_matrix count_matrix = Inl ZeroDivisionError"
proof -
  let ?body = "\<lambda>frequency_matrix (base, occurances).
                  case comprehension (\<lambda>occurance. true_div occurance 0) occurances of
                    Inl e \<Rightarrow> Inl e
                  | Inr row \<Rightarrow> Inr (setitem frequency_matrix base row)"
  from column_first_row[OF assms(1)] obtain row
    where row: "(''A'', row) \<in> set count_matrix" "0 < length row"
    by auto
  then obtain c where "c \<in> set row" by (cases row) auto
  then have "\<exists>e. comprehension (\<lambda>occurance. true_div occurance 0) row = Inl e"
    by (rule comprehension_fails) (simp add: true_div_def)
  then have "\<exists>e'. ?body s' (''A'', row) = Inl e'" for s'
    by auto
  with row(1) have "\<exists>e. for_loop ?body count_matrix [] = Inl e"
    by (rule for_loop_fails)
  then obtain e where e: "for_loop ?body count_matrix [] = Inl e" ..
  have "e \<in> {ZeroDivisionError}"
  proof (rule for_loop_errors[OF e])
    fix s' x e'
    assume "?body s' x = Inl e'"
    then have "comprehension (\<lambda>occurance. true_div occurance 0) (snd x) = Inl e'"
      by (cases x) (auto split: sum.splits)
    then show "e' \<in> {ZeroDivisionError}"
      by (rule comprehension_errors) (auto simp: true_div_def split: if_splits)
  qed
  with e assms show ?thesis
    by (simp add: count_to_frequency_matrix_def)
qed

lemma column_first_position:
  assumes "column m i = Inr counts"
  shows "\<exists>firsts. column m 0 = Inr firsts"
proof -
  have first: "\<exists>v. cell m base 0 = Inr v" if "cell m base i = Inr w" for base w
    using that by (auto simp: cell_def getitem_def index_def split: option.splits if_splits)
  from assms obtain a t c g where
    i: "cell m ''A'' i = Inr a" "cell m ''T'' i = Inr t" "cell m ''C'' i = Inr c" "cell m ''G'' i = Inr g"
    by (auto simp: column_def BASES_def split: sum.splits)
  from first[OF i(1)] obtain a0 where a0: "cell m ''A'' 0 = Inr a0" ..
  from first[OF i(2)] obtain t0 where t0: "cell m ''T'' 0 = Inr t0" ..
  from first[OF i(3)] obtain c0 where c0: "cell m ''C'' 0 = Inr c0" ..
  from first[OF i(4)] obtain g0 where g0: "cell m ''G'' 0 = Inr g0" ..
  from a0 t0 c0 g0 have "column m 0 = Inr [a0, t0, c0, g0]"
    by (simp add: column_def BASES_def)
  then show ?thesis ..
qed

text \<open>
  Claim C5: for every count matrix (every position has the same total \<open>N\<close>, the number
  of instances) that has some position at which the four per-base counts sum to 0,
  \<^verbatim>\<open>count_to_frequency_matrix\<close> fails with a division by zero.
\<close>

theorem count_to_frequency_zero_position:
  assumes "\<forall>j counts. column count_matrix j = Inr counts \<longrightarrow> sum_list counts = N"
    and "column count_matrix i = Inr zeros" and "sum_list zeros = 0"
  shows "count_to_frequency_matrix count_matrix = Inl ZeroDivisionError"
proof -
  from assms(1,2,3) have N: "N = 0" by auto
  from column_first_position[OF assms(2)] obtain firsts
    where firsts: "column count_matrix 0 = Inr firsts" ..
  with assms(1) N have "sum_list firsts = 0" by auto
  with firsts show ?thesis by (rule count_to_frequency_zero_first)
qed

theorem count_to_frequency_zero_position_witness:
  "column empty_count_matrix 1 = Inr [0, 0, 0, 0]
   \<and> count_to_frequency_matrix empty_count_matrix = Inl ZeroDivisionError"
proof -
  have c: "column empty_count_matrix 1 = Inr [0, 0, 0, 0]"
    by (simp add: empty_count_matrix_def column_def BASES_def cell_def getitem_def index_def)
  have uniform: "\<forall>j counts. column empty_count_matrix j = Inr counts \<longrightarrow> sum_list counts = 0"
  proof (intro allI impI)
    fix j counts assume col: "column empty_count_matrix j = Inr counts"
    have "j = 0 \<or> j = 1 \<or> 2 \<le> j" by arith
    with col show "sum_list counts = 0"
      by (auto simp: empty_count_matrix_def column_def BASES_def cell_def getitem_def index_def)
  qed
  from count_to_frequency_zero_position[OF uniform c] c show ?thesis by simp
qed

section \<open>Pseudo-counts\<close>

lemma for_loop_Inr_steps:
  "for_loop body xs s = Inr out \<Longrightarrow> x \<in> set xs \<Longrightarrow> \<exists>s1 s2. body s1 x = Inr s2"
proof (induction xs arbitrary: s)
  case Nil
  then show ?case by simp
next
  case (Cons y ys)
  then show ?case by (auto split: sum.splits)
qed

lemma getitem_table: "base \<in> set BASES \<Longrightarrow> getitem (table f n) base = Inr (map (f base) [0..<n])"
  by (auto simp: getitem_def table_def BASES_def)

lemma getitem_table_unknown: "base \<notin> set BASES \<Longrightarrow> getitem (table f n) base = Inl KeyError"
  by (auto simp: getitem_def table_def BASES_def)

lemma cell_table: "base \<in> set BASES \<Longrightarrow> i < n \<Longrightarrow> cell (table f n) base i = Inr (f base i)"
  by (simp add: cell_def getitem_table index_def)

lemma cell_table_Inr: "cell (table f n) base i = Inr y \<Longrightarrow> base \<in> set BASES \<and> i < n \<and> y = f base i"
proof (cases "base \<in> set BASES")
  case True
  assume "cell (table f n) base i = Inr y"
  with True show ?thesis by (auto simp: cell_def getitem_table index_def split: if_splits)
next
  case False
  assume "cell (table f n) base i = Inr y"
  with False show ?thesis by (simp add: cell_def getitem_table_unknown)
qed

lemma column_table: "i < n \<Longrightarrow> column (table f n) i = Inr (map (\<lambda>base. f base i) BASES)"
proof -
  assume "i < n"
  then have "comprehension (\<lambda>base. cell (table f n) base i) BASES = Inr (map (\<lambda>base. f base i) BASES)"
    by (intro comprehension_map) (simp add: cell_table)
  then show ?thesis by (simp add: column_def)
qed

lemma table_cong:
  "(\<And>base i. base \<in> set BASES \<Longrightarrow> i < n \<Longrightarrow> f base i = g base i) \<Longrightarrow> table f n = table g n"
  by (simp add: table_def)

lemma list_update_map_upt: "i < n \<Longrightarrow> (map g [0..<n])[i := v] = map (g(i := v)) [0..<n]"
  by (rule nth_equalityI) (auto simp: nth_list_update)

lemma setitem_table:
  "base \<in> set BASES \<Longrightarrow> setitem (table f n) base row = map (\<lambda>b. (b, if b = base then row else map (f b) [0..<n])) BASES"
  by (auto simp: table_def BASES_def)

lemma set_cell_table:
  assumes "base \<in> set BASES" and "i < n"
  shows "set_cell (table f n) base i v = Inr (table (f(base := (f base)(i := v))) n)"
proof -
  have "setitem (table f n) base ((map (f base) [0..<n])[i := v])
        = table (f(base := (f base)(i := v))) n"
    using assms by (simp add: setitem_table list_update_map_upt) (simp add: table_def)
  with assms show ?thesis by (simp add: set_cell_def getitem_table)
qed

lemma column_cells:
  "column m i = Inr fs \<Longrightarrow>
     \<exists>a t c g. cell m ''A'' i = Inr a \<and> cell m ''T'' i = Inr t \<and> cell m ''C'' i = Inr c
       \<and> cell m ''G'' i = Inr g \<and> fs = [a, t, c, g]"
  by (auto simp: column_def BASES_def split: sum.splits)

lemma pseudo_position_Inr:
  "pseudo_position m lf pm i = Inr pm' \<Longrightarrow> \<exists>fs. column m i = Inr fs \<and> nonzero_count fs \<noteq> 0"
  by (auto simp: pseudo_position_def position_frequencies_def split: sum.splits if_splits)

lemma pseudo_position_table:
  assumes "i < n" and "column m i = Inr fs" and "nonzero_count fs \<noteq> 0"
  shows "pseudo_position m lf (table f n) i
         = Inr (table (\<lambda>base j. if j = i then new_cell m lf base i else f base j) n)"
proof -
  from column_cells[OF assms(2)] obtain a t c g where
    cells: "cell m ''A'' i = Inr a" "cell m ''T'' i = Inr t" "cell m ''C'' i = Inr c" "cell m ''G'' i = Inr g"
    by blast
  have B: "''A'' \<in> set BASES" "''T'' \<in> set BASES" "''C'' \<in> set BASES" "''G'' \<in> set BASES"
    by (simp_all add: BASES_def)
  have "pseudo_position m lf (table f n) i = Inr (table
     (f(''A'' := (f ''A'')(i := new_cell m lf ''A'' i),
        ''T'' := (f ''T'')(i := new_cell m lf ''T'' i),
        ''C'' := (f ''C'')(i := new_cell m lf ''C'' i),
        ''G'' := (f ''G'')(i := new_cell m lf ''G'' i))) n)"
    using assms cells
    apply (simp add: pseudo_position_def position_frequencies_def)
    apply (subst BASES_def)
    apply (simp add: set_cell_table B new_cell_def)
    done
  also have "table
     (f(''A'' := (f ''A'')(i := new_cell m lf ''A'' i),
        ''T'' := (f ''T'')(i := new_cell m lf ''T'' i),
        ''C'' := (f ''C'')(i := new_cell m lf ''C'' i),
        ''G'' := (f ''G'')(i := new_cell m lf ''G'' i))) n
     = table (\<lambda>base j. if j = i then new_cell m lf base i else f base j) n"
    by (rule table_cong) (auto simp: BASES_def)
  finally show ?thesis .
qed

lemma positions_loop:
  assumes "\<And>i. i \<in> set positions \<Longrightarrow> i < n \<and> (\<exists>fs. column m i = Inr fs \<and> nonzero_count fs \<noteq> 0)"
  shows "for_loop (pseudo_position m lf) positions (table f n)
         = Inr (table (\<lambda>base j. if j \<in> set positions then new_cell m lf base j else f base j) n)"
  using assms
proof (induction positions arbitrary: f)
  case Nil
  then show ?case by simp
next
  case (Cons i positions)
  from Cons.prems[of i] obtain fs where i: "i < n" "column m i = Inr fs" "nonzero_count fs \<noteq> 0"
    by auto
  let ?f = "\<lambda>base j. if j = i then new_cell m lf base i else f base j"
  have "for_loop (pseudo_position m lf) positions (table ?f n)
         = Inr (table (\<lambda>base j. if j \<in> set positions then new_cell m lf base j else ?f base j) n)"
    by (rule Cons.IH) (use Cons.prems in auto)
  also have "table (\<lambda>base j. if j \<in> set positions then new_cell m lf base j else ?f base j) n
     = table (\<lambda>base j. if j \<in> set (i # positions) then new_cell m lf base j else f base j) n"
    by (rule table_cong) auto
  finally show ?case using i by (simp add: pseudo_position_table)
qed

lemma initial_pseudo_matrix:
  "map (\<lambda>base. (base, replicate n (0::real))) BASES = table (\<lambda>base i. 0) n"
  by (simp add: table_def map_replicate_const)

lemma add_pseudo_counts_eq:
  assumes "getitem m ''A'' = Inr row"
    and "\<And>i. i < length row \<Longrightarrow> \<exists>fs. column m i = Inr fs \<and> nonzero_count fs \<noteq> 0"
  shows "add_pseudo_counts m lf = Inr (table (new_cell m lf) (length row))"
proof -
  have A: "BASES ! 0 = ''A''" by (simp add: BASES_def)
  have "for_loop (pseudo_position m lf) [0..<length row] (table (\<lambda>base i. 0) (length row))
        = Inr (table (\<lambda>base j. if j \<in> set [0..<length row] then new_cell m lf base j else 0) (length row))"
    by (rule positions_loop) (use assms(2) in auto)
  also have "table (\<lambda>base j. if j \<in> set [0..<length row] then new_cell m lf base j else 0) (length row)
     = table (new_cell m lf) (length row)"
    by (rule table_cong) auto
  finally show ?thesis
    using assms(1) by (simp add: add_pseudo_counts_def A initial_pseudo_matrix)
qed

lemma add_pseudo_counts_Inr:
  assumes "add_pseudo_counts m lf = Inr out"
  shows "\<exists>row. getitem m ''A'' = Inr row
           \<and> (\<forall>i<length row. \<exists>fs. column m i = Inr fs \<and> nonzero_count fs \<noteq> 0)
           \<and> out = table (new_cell m lf) (length row)"
proof -
  have A: "BASES ! 0 = ''A''" by (simp add: BASES_def)
  from assms obtain row where row: "getitem m ''A'' = Inr row"
    and loop: "for_loop (pseudo_position m lf) [0..<length row]
                 (map (\<lambda>base. (base, replicate (length row) 0)) BASES) = Inr out"
    by (auto simp: add_pseudo_counts_def A Let_def split: sum.splits)
  have ok: "\<exists>fs. column m i = Inr fs \<and> nonzero_count fs \<noteq> 0" if "i < length row" for i
  proof -
    from that have "i \<in> set [0..<length row]" by simp
    from for_loop_Inr_steps[OF loop this] show ?thesis
      by (auto dest: pseudo_position_Inr)
  qed
  from add_pseudo_counts_eq[OF row ok, of lf] assms have "out = table (new_cell m lf) (length row)"
    by simp
  with row ok show ?thesis by blast
qed


lemmas eval_defs = add_pseudo_counts_def pseudo_position_def position_frequencies_def column_def
  BASES_def cell_def getitem_def index_def set_cell_def diff_def zero_count_def nonzero_count_def

text \<open>
  Claim C1: the claim says that no cell of the matrix returned by \<^verbatim>\<open>add_pseudo_counts\<close>
  is 0, and the docstring of \<^verbatim>\<open>freq_to_log_matrix\<close> relies on it. The code taxes every
  non-zero cell by \<open>diff\<close> without looking at the result. Nine \<^verbatim>\<open>"A"\<close> and one \<^verbatim>\<open>"T"\<close>
  give the frequencies 0.9, 0.1, 0, 0; with the default floor 0.1,
  \<open>diff = 2 * 0.1 / 2 = 0.1\<close> and the cell of T becomes \<open>0.1 - 0.1 = 0\<close>, so that
  \<^verbatim>\<open>get_scoring_matrix\<close> takes the logarithm of 0.
\<close>

theorem scoring_matrix_log_of_zero:
  "get_frequency_matrix nine_A_one_T = Inr nine_to_one_matrix
   \<and> add_pseudo_counts nine_to_one_matrix (1/10)
       = Inr [(''A'', [4/5]), (''T'', [0]), (''C'', [1/10]), (''G'', [1/10])]
   \<and> get_scoring_matrix nine_A_one_T = Inl ValueError"
proof -
  have cm: "instances_to_count_matrix nine_A_one_T
            = Inr [(''A'', [9]), (''T'', [1]), (''C'', [0]), (''G'', [0])]"
    by (simp add: nine_A_one_T_def instances_to_count_matrix_def BASES_def incr_cell_def getitem_def)
  have fm: "get_frequency_matrix nine_A_one_T = Inr nine_to_one_matrix"
    by (simp add: get_frequency_matrix_def cm count_to_frequency_matrix_def column_def BASES_def
        cell_def getitem_def index_def true_div_def nine_to_one_matrix_def)
  have pm: "add_pseudo_counts nine_to_one_matrix (1/10)
       = Inr [(''A'', [4/5]), (''T'', [0]), (''C'', [1/10]), (''G'', [1/10])]"
    by (simp add: nine_to_one_matrix_def eval_defs)
  have lm: "freq_to_log_matrix [(''A'', [4/5]), (''T'', [0]), (''C'', [1/10]), (''G'', [1/10])]
            = Inl ValueError"
    by (simp add: freq_to_log_matrix_def neg_log_def)
  from fm pm lm show ?thesis by (simp add: get_scoring_matrix_def)
qed

lemma sum_new_cells:
  assumes "column m i = Inr fs" and "nonzero_count fs \<noteq> 0"
  shows "sum_list (map (\<lambda>base. new_cell m lf base i) BASES) = sum_list fs"
proof -
  from column_cells[OF assms(1)] obtain a t c g where
    cells: "cell m ''A'' i = Inr a" "cell m ''T'' i = Inr t" "cell m ''C'' i = Inr c" "cell m ''G'' i = Inr g"
    and fs: "fs = [a, t, c, g]"
    by blast
  show ?thesis
    using assms cells unfolding fs
    by (cases "a = 0"; cases "t = 0"; cases "c = 0"; cases "g = 0")
       (simp_all add: new_cell_def BASES_def diff_def zero_count_def nonzero_count_def field_simps)
qed

text \<open>
  Claim C3: for every frequency matrix whose four values at each position sum to 1, and
  for which \<^verbatim>\<open>add_pseudo_counts\<close> succeeds, the returned matrix has the four bases with
  rows of the motif length, and its four values at each position sum to 1.
\<close>

theorem pseudo_counts_sum_one:
  assumes "add_pseudo_counts m low_frequency = Inr out"
    and "\<forall>i fs. column m i = Inr fs \<longrightarrow> sum_list fs = 1"
  shows "\<exists>row. getitem m ''A'' = Inr row
           \<and> (\<forall>base \<in> set BASES. \<exists>r. getitem out base = Inr r \<and> length r = length row)
           \<and> (\<forall>i<length row. \<exists>fs'. column out i = Inr fs' \<and> sum_list fs' = 1)"
proof -
  from add_pseudo_counts_Inr[OF assms(1)] obtain row where
    row: "getitem m ''A'' = Inr row"
    and ok: "\<forall>i<length row. \<exists>fs. column m i = Inr fs \<and> nonzero_count fs \<noteq> 0"
    and out: "out = table (new_cell m low_frequency) (length row)"
    by blast
  have rows: "\<forall>base \<in> set BASES. \<exists>r. getitem out base = Inr r \<and> length r = length row"
    by (simp add: out getitem_table)
  have sums: "\<exists>fs'. column out i = Inr fs' \<and> sum_list fs' = 1" if "i < length row" for i
  proof -
    from ok that obtain fs where fs: "column m i = Inr fs" "nonzero_count fs \<noteq> 0" by blast
    with assms(2) have "sum_list fs = 1" by blast
    with sum_new_cells[OF fs, of low_frequency] that show ?thesis
      by (simp add: out column_table)
  qed
  from row rows sums show ?thesis by blast
qed


theorem pseudo_counts_sum_one_witness:
  "add_pseudo_counts doctest_matrix (1/10) = Inr pseudo_doctest_matrix
   \<and> getitem doctest_matrix ''A'' = Inr [1, 0]
   \<and> column pseudo_doctest_matrix 0 = Inr [7/10, 1/10, 1/10, 1/10]
   \<and> column pseudo_doctest_matrix 1 = Inr [1/10, 2/5, 2/5, 1/10]"
proof -
  have run: "add_pseudo_counts doctest_matrix (1/10) = Inr pseudo_doctest_matrix"
    by (simp add: doctest_matrix_def pseudo_doctest_matrix_def eval_defs)
  have hyp: "\<forall>i fs. column doctest_matrix i = Inr fs \<longrightarrow> sum_list fs = 1"
  proof (intro allI impI)
    fix i fs assume c: "column doctest_matrix i = Inr fs"
    have "i = 0 \<or> i = 1 \<or> 2 \<le> i" by arith
    with c show "sum_list fs = 1"
      by (auto simp: doctest_matrix_def column_def BASES_def cell_def getitem_def index_def)
  qed
  from pseudo_counts_sum_one[OF run hyp] run show ?thesis
    by (simp add: doctest_matrix_def pseudo_doctest_matrix_def column_def BASES_def cell_def
        getitem_def index_def)
qed

lemma map_of_table:
  "map_of (table f n) base = (if base \<in> set BASES then Some (map (f base) [0..<n]) else None)"
  by (auto simp: table_def BASES_def)

lemma cell_row: "map_of m base = Some row \<Longrightarrow> i < length row \<Longrightarrow> cell m base i = Inr (row ! i)"
  by (simp add: cell_def getitem_def index_def)

text \<open>
  Claim C7: for every frequency matrix (keyed by the four bases, all rows of one length)
  none of whose cells is 0 and every floor value, \<^verbatim>\<open>add_pseudo_counts\<close> returns a dict
  equal to the input: the same keys with the same rows.
\<close>

theorem pseudo_counts_unchanged:
  assumes "fst ` set m = set BASES"
    and "\<forall>(base, row) \<in> set m. length row = n"
    and "\<forall>(base, row) \<in> set m. \<forall>x \<in> set row. x \<noteq> 0"
  shows "\<exists>out. add_pseudo_counts m low_frequency = Inr out \<and> map_of out = map_of m"
proof -
  have rows: "\<exists>row. map_of m base = Some row \<and> length row = n \<and> (\<forall>x \<in> set row. x \<noteq> 0)"
    if "base \<in> set BASES" for base
  proof -
    from that assms(1) have "base \<in> fst ` set m" by simp
    then obtain row where row: "map_of m base = Some row"
      by (cases "map_of m base") (auto simp: map_of_eq_None_iff)
    then have "(base, row) \<in> set m" by (rule map_of_SomeD)
    with assms(2,3) row show ?thesis by auto
  qed
  have B: "''A'' \<in> set BASES" "''T'' \<in> set BASES" "''C'' \<in> set BASES" "''G'' \<in> set BASES"
    by (simp_all add: BASES_def)
  from rows[OF B(1)] obtain a where a: "map_of m ''A'' = Some a" "length a = n" by blast
  have col: "\<exists>fs. column m i = Inr fs \<and> nonzero_count fs \<noteq> 0 \<and> diff fs low_frequency = 0"
    if i: "i < n" for i
  proof -
    have c: "\<exists>v. cell m base i = Inr v \<and> v \<noteq> 0" if "base \<in> set BASES" for base
    proof -
      from rows[OF that] obtain row where row: "map_of m base = Some row" "length row = n"
        "\<forall>x \<in> set row. x \<noteq> 0" by blast
      with i have "cell m base i = Inr (row ! i)" "row ! i \<noteq> 0"
        by (simp_all add: cell_row)
      then show ?thesis by blast
    qed
    from c[OF B(1)] c[OF B(2)] c[OF B(3)] c[OF B(4)] show ?thesis
      by (auto simp: column_def BASES_def nonzero_count_def zero_count_def diff_def)
  qed
  from a(1) have ga: "getitem m ''A'' = Inr a" by (simp add: getitem_def)
  have run: "add_pseudo_counts m low_frequency = Inr (table (new_cell m low_frequency) (length a))"
    by (rule add_pseudo_counts_eq[OF ga]) (use col a(2) in blast)
  have "map_of (table (new_cell m low_frequency) n) base = map_of m base" for base
  proof (cases "base \<in> set BASES")
    case True
    from rows[OF True] obtain row where row: "map_of m base = Some row" "length row = n"
      "\<forall>x \<in> set row. x \<noteq> 0" by blast
    have "map (new_cell m low_frequency base) [0..<n] = row"
    proof (rule nth_equalityI)
      show "length (map (new_cell m low_frequency base) [0..<n]) = length row"
        using row(2) by simp
    next
      fix i assume "i < length (map (new_cell m low_frequency base) [0..<n])"
      then have i: "i < n" by simp
      from col[OF i] obtain fs where fs: "column m i = Inr fs" "diff fs low_frequency = 0" by blast
      from row i have "cell m base i = Inr (row ! i)" "row ! i \<noteq> 0"
        by (simp_all add: cell_row)
      with fs i show "map (new_cell m low_frequency base) [0..<n] ! i = row ! i"
        by (simp add: new_cell_def)
    qed
    with True row(1) show ?thesis by (simp add: map_of_table)
  next
    case False
    with assms(1) have "base \<notin> fst ` set m" by simp
    then have "map_of m base = None" by (simp add: map_of_eq_None_iff)
    with False show ?thesis by (simp add: map_of_table)
  qed
  then have "map_of (table (new_cell m low_frequency) (length a)) = map_of m"
    using a(2) by auto
  with run show ?thesis by blast
qed

theorem pseudo_counts_unchanged_witness:
  "add_pseudo_counts pseudo_doctest_matrix (1/10) = Inr pseudo_doctest_matrix
   \<and> add_pseudo_counts pseudo_doctest_matrix 0 = Inr pseudo_doctest_matrix"
proof -
  have h1: "fst ` set pseudo_doctest_matrix = set BASES"
    by (simp add: pseudo_doctest_matrix_def BASES_def)
  have h2: "\<forall>(base, row) \<in> set pseudo_doctest_matrix. length row = 2"
    by (simp add: pseudo_doctest_matrix_def)
  have h3: "\<forall>(base, row) \<in> set pseudo_doctest_matrix. \<forall>x \<in> set row. x \<noteq> 0"
    by (simp add: pseudo_doctest_matrix_def)
  have "add_pseudo_counts pseudo_doctest_matrix (1/10) = Inr pseudo_doctest_matrix"
    by (simp add: pseudo_doctest_matrix_def eval_defs)
  moreover have "add_pseudo_counts pseudo_doctest_matrix 0 = Inr pseudo_doctest_matrix"
    by (simp add: pseudo_doctest_matrix_def eval_defs)
  ultimately show ?thesis
    using pseudo_counts_unchanged[OF h1 h2 h3, of "1/10"] by simp
qed

section \<open>Count matrix\<close>

lemma incr_cell_table:
  assumes "base \<in> set BASES" and "i < n"
  shows "incr_cell (table f n) base i = Inr (table (f(base := (f base)(i := f base i + 1))) n)"
proof -
  have "setitem (table f n) base ((map (f base) [0..<n])[i := f base i + 1])
        = table (f(base := (f base)(i := f base i + 1))) n"
    using assms by (simp add: setitem_table list_update_map_upt) (simp add: table_def)
  with assms show ?thesis by (simp add: incr_cell_def getitem_table)
qed

lemma instance_loop:
  assumes "distinct positions"
    and "\<And>i. i \<in> set positions \<Longrightarrow> i < n \<and> [instance ! i] \<in> set BASES"
  shows "for_loop (\<lambda>cm' i. incr_cell cm' [instance ! i] i) positions (table f n)
         = Inr (table (\<lambda>base j. f base j + (if j \<in> set positions \<and> [instance ! j] = base then 1 else 0)) n)"
  using assms
proof (induction positions arbitrary: f)
  case Nil
  then show ?case by simp
next
  case (Cons i positions)
  from Cons.prems(2)[of i] have i: "i < n" "[instance ! i] \<in> set BASES" by simp_all
  let ?f = "f([instance ! i] := (f [instance ! i])(i := f [instance ! i] i + 1))"
  have "for_loop (\<lambda>cm' i. incr_cell cm' [instance ! i] i) positions (table ?f n)
         = Inr (table (\<lambda>base j. ?f base j + (if j \<in> set positions \<and> [instance ! j] = base then 1 else 0)) n)"
    by (rule Cons.IH) (use Cons.prems in auto)
  also have "table (\<lambda>base j. ?f base j + (if j \<in> set positions \<and> [instance ! j] = base then 1 else 0)) n
      = table (\<lambda>base j. f base j + (if j \<in> set (i # positions) \<and> [instance ! j] = base then 1 else 0)) n"
    by (rule table_cong) (use Cons.prems(1) in auto)
  finally have rest: "for_loop (\<lambda>cm' i. incr_cell cm' [instance ! i] i) positions (table ?f n)
      = Inr (table (\<lambda>base j. f base j + (if j \<in> set (i # positions) \<and> [instance ! j] = base then 1 else 0)) n)" .
  have step: "incr_cell (table f n) [instance ! i] i = Inr (table ?f n)"
    using i(2,1) by (rule incr_cell_table)
  show ?case by (simp only: for_loop.simps step sum.case rest)
qed

lemma occurrences_Cons:
  "occurrences (x # xs) base i = (if [x ! i] = base then 1 else 0) + occurrences xs base i"
  by (simp add: occurrences_def)

lemma instances_loop:
  assumes "\<And>x. x \<in> set instances \<Longrightarrow> length x = n \<and> (\<forall>i<n. [x ! i] \<in> set BASES)"
  shows "for_loop
           (\<lambda>cm instance.
              for_loop (\<lambda>cm' i. incr_cell cm' [instance ! i] i) [0..<length instance] cm)
           instances (table f n)
         = Inr (table (\<lambda>base j. f base j + occurrences instances base j) n)"
  using assms
proof (induction instances arbitrary: f)
  case Nil
  then show ?case by (simp add: occurrences_def)
next
  case (Cons x instances)
  from Cons.prems[of x] have x: "length x = n" "\<forall>i<n. [x ! i] \<in> set BASES" by simp_all
  let ?f = "\<lambda>base j. f base j + (if j \<in> set [0..<n] \<and> [x ! j] = base then 1 else 0)"
  have one: "for_loop (\<lambda>cm' i. incr_cell cm' [x ! i] i) [0..<length x] (table f n) = Inr (table ?f n)"
    unfolding x(1) by (rule instance_loop) (use x in auto)
  have "for_loop
           (\<lambda>cm instance.
              for_loop (\<lambda>cm' i. incr_cell cm' [instance ! i] i) [0..<length instance] cm)
           instances (table ?f n)
         = Inr (table (\<lambda>base j. ?f base j + occurrences instances base j) n)"
    by (rule Cons.IH) (use Cons.prems in auto)
  also have "table (\<lambda>base j. ?f base j + occurrences instances base j) n
     = table (\<lambda>base j. f base j + occurrences (x # instances) base j) n"
    by (rule table_cong) (simp add: occurrences_Cons)
  finally have rest: "for_loop
           (\<lambda>cm instance.
              for_loop (\<lambda>cm' i. incr_cell cm' [instance ! i] i) [0..<length instance] cm)
           instances (table ?f n)
         = Inr (table (\<lambda>base j. f base j + occurrences (x # instances) base j) n)" .
  show ?case by (simp only: for_loop.simps one sum.case rest)
qed

lemma initial_count_matrix:
  "map (\<lambda>base. (base, replicate n (0::int))) BASES = table (\<lambda>base i. 0) n"
  by (simp add: table_def map_replicate_const)

lemma base_of_char: "c \<in> set ''ATCG'' \<Longrightarrow> [c] \<in> set BASES"
  by (auto simp: BASES_def)

lemma instances_to_count_matrix_eq:
  assumes "instances \<noteq> []"
    and "\<forall>x \<in> set instances. length x = n \<and> set x \<subseteq> set ''ATCG''"
  shows "instances_to_count_matrix instances = Inr (table (occurrences instances) n)"
proof -
  from assms(1) obtain first rest where inst: "instances = first # rest" by (cases instances) auto
  with assms(2) have first: "length first = n" by simp
  have same: "\<not> list_ex (\<lambda>i. length first \<noteq> length i) instances"
    using assms(2) first by (auto simp: list_ex_iff)
  have ok: "length x = n \<and> (\<forall>i<n. [x ! i] \<in> set BASES)" if "x \<in> set instances" for x
  proof -
    from that assms(2) have l: "length x = n" and s: "set x \<subseteq> set ''ATCG''" by auto
    have "[x ! i] \<in> set BASES" if "i < n" for i
    proof -
      from that l have "x ! i \<in> set x" by simp
      with s have "x ! i \<in> set ''ATCG''" by blast
      then show ?thesis by (rule base_of_char)
    qed
    with l show ?thesis by simp
  qed
  have "for_loop
           (\<lambda>cm instance.
              for_loop (\<lambda>cm' i. incr_cell cm' [instance ! i] i) [0..<length instance] cm)
           instances (table (\<lambda>base i. 0) n)
         = Inr (table (\<lambda>base j. 0 + occurrences instances base j) n)"
    by (rule instances_loop) (use ok in blast)
  then have "for_loop
           (\<lambda>cm instance.
              for_loop (\<lambda>cm' i. incr_cell cm' [instance ! i] i) [0..<length instance] cm)
           instances (table (\<lambda>base i. 0) n)
         = Inr (table (occurrences instances) n)"
    by simp
  with same first show ?thesis
    unfolding instances_to_count_matrix_def inst[symmetric]
    by (simp add: inst initial_count_matrix Let_def)
qed

lemma occurrences_total:
  assumes "\<forall>x \<in> set instances. [x ! i] \<in> set BASES"
  shows "sum_list (map (\<lambda>base. occurrences instances base i) BASES) = int (length instances)"
  using assms
proof (induction instances)
  case Nil
  then show ?case by (simp add: occurrences_def BASES_def)
next
  case (Cons x instances)
  then have "sum_list (map (\<lambda>base. occurrences instances base i) BASES) = int (length instances)"
    by simp
  moreover have "[x ! i] \<in> set BASES" using Cons.prems by simp
  ultimately show ?case
    by (auto simp: occurrences_Cons BASES_def)
qed

text \<open>
  Claim C6: for every non-empty list of instances, all of length \<open>L\<close> and made of the
  characters A, T, C and G only, \<^verbatim>\<open>instances_to_count_matrix\<close> returns a count matrix
  with a row of length \<open>L\<close> for each base, whose four counts at every position sum to the
  number of instances.
\<close>

theorem count_matrix_column_sums:
  assumes "instances \<noteq> []"
    and "\<forall>x \<in> set instances. length x = L \<and> set x \<subseteq> set ''ATCG''"
  shows "\<exists>count_matrix. instances_to_count_matrix instances = Inr count_matrix
           \<and> (\<forall>base \<in> set BASES. \<exists>row. getitem count_matrix base = Inr row \<and> length row = L)
           \<and> (\<forall>i<L. \<exists>counts. column count_matrix i = Inr counts
                    \<and> sum_list counts = int (length instances))"
proof -
  have run: "instances_to_count_matrix instances = Inr (table (occurrences instances) L)"
    using assms by (rule instances_to_count_matrix_eq)
  have rows: "\<forall>base \<in> set BASES. \<exists>row. getitem (table (occurrences instances) L) base = Inr row \<and> length row = L"
    by (simp add: getitem_table)
  have sums: "\<exists>counts. column (table (occurrences instances) L) i = Inr counts
                 \<and> sum_list counts = int (length instances)" if "i < L" for i
  proof -
    have "\<forall>x \<in> set instances. [x ! i] \<in> set BASES"
    proof
      fix x assume x: "x \<in> set instances"
      with assms(2) that have "x ! i \<in> set x" by simp
      with assms(2) x have "x ! i \<in> set ''ATCG''" by blast
      then show "[x ! i] \<in> set BASES" by (rule base_of_char)
    qed
    then have "sum_list (map (\<lambda>base. occurrences instances base i) BASES) = int (length instances)"
      by (rule occurrences_total)
    with that show ?thesis by (simp add: column_table)
  qed
  from run rows sums show ?thesis by blast
qed

theorem count_matrix_column_sums_witness:
  "instances_to_count_matrix [''ACC'', ''ATG'']
     = Inr [(''A'', [2, 0, 0]), (''T'', [0, 1, 0]), (''C'', [0, 1, 1]), (''G'', [0, 0, 1])]
   \<and> column [(''A'', [2, 0, 0]), (''T'', [0, 1, 0]), (''C'', [0, 1, 1]), (''G'', [0, 0, 1::int])] 1
       = Inr [0, 1, 1, 0]"
proof -
  have "[''ACC'', ''ATG''] \<noteq> []" by simp
  moreover have "\<forall>x \<in> set [''ACC'', ''ATG'']. length x = 3 \<and> set x \<subseteq> set ''ATCG''" by simp
  ultimately have "\<exists>count_matrix. instances_to_count_matrix [''ACC'', ''ATG''] = Inr count_matrix
           \<and> (\<forall>base \<in> set BASES. \<exists>row. getitem count_matrix base = Inr row \<and> length row = 3)
           \<and> (\<forall>i<3. \<exists>counts. column count_matrix i = Inr counts
                    \<and> sum_list counts = int (length [''ACC'', ''ATG'']))"
    by (rule count_matrix_column_sums)
  moreover have "instances_to_count_matrix [''ACC'', ''ATG'']
     = Inr [(''A'', [2, 0, 0]), (''T'', [0, 1, 0]), (''C'', [0, 1, 1]), (''G'', [0, 0, 1])]"
    by (simp add: instances_to_count_matrix_def BASES_def incr_cell_def getitem_def
        upt_conv_Cons numeral_3_eq_3)
  ultimately show ?thesis
    by (simp add: column_def BASES_def cell_def getitem_def index_def)
qed

section \<open>Percentage report\<close>












section \<open>Percentage report in binary64 arithmetic\<close>










lemma powr_neg_numeral_56: "(2::real) powr (- 56) = 1 / 2 ^ 56"
proof -
  have "(2::real) powr (- real 56) = 1 / 2 powr (real 56)" by (simp only: powr_minus_divide)
  also have "(2::real) powr (real 56) = 2 ^ 56" by (simp only: powr_realpow)
  finally show ?thesis by simp
qed

text \<open>A check of the rounding against a known double: \<^verbatim>\<open>(0.1).as_integer_ratio()\<close> is
  \<^verbatim>\<open>(3602879701896397, 36028797018963968)\<close>.\<close>

lemma round_double_tenth: "round_double (1/10) = 3602879701896397 / 36028797018963968"
proof -
  have "\<lfloor>log 2 (1/10 :: real)\<rfloor> = - 4"
  proof -
    have "(2::real) powr of_int (- 4) \<le> 1/10 \<and> 1/10 < (2::real) powr of_int (- 4 + 1)"
      by (simp add: powr_minus_divide)
    then show ?thesis by (simp only: floor_log_eq_powr_iff[symmetric, of "1/10" 2 "- 4"])
  qed
  then have e: "double_exponent (1/10) = - 4"
    by (simp add: double_exponent_def)
  have q: "(1/10 :: real) / 2 powr (- 56) = 36028797018963968 / 5"
    by (simp add: powr_neg_numeral_56)
  have fl: "\<lfloor>36028797018963968 / 5 :: real\<rfloor> = 7205759403792793"
    by (simp add: floor_eq_iff)
  have r: "round_half_even (36028797018963968 / 5) = 7205759403792794"
    unfolding round_half_even_def Let_def fl by simp
  show ?thesis
    unfolding round_double_def Let_def e
    by (simp add: q r powr_neg_numeral_56)
qed













end
